theory Spec2Isabelle
  imports Main "HOL-Library.Sublist" "HOL-Library.Word"
begin

section \<open>deploy.go: derefAddresses\<close>

text \<open>
  \<^verbatim>\<open>common.Address\<close> is a 20-byte array, here a 160-bit word. A value of type
  \<^verbatim>\<open>*common.Address\<close> is either nil or points to an address; the function only reads
  through the pointers, so a pointer is modelled by the value it points to: \<open>None\<close> is nil
  and \<open>Some a\<close> a pointer whose target holds \<open>a\<close>.
\<close>

type_synonym address = "160 word"

text \<open>
  The body of the \<^verbatim>\<open>for _, ptr := range ptrs\<close> loop: the accumulator \<open>addrs\<close> starts
  empty and \<^verbatim>\<open>append\<close> adds \<^verbatim>\<open>*ptr\<close> at its end when \<^verbatim>\<open>ptr != nil\<close>.
\<close>

fun deref_loop :: "address option list \<Rightarrow> address list \<Rightarrow> address list" where
  "deref_loop [] addrs = addrs"
| "deref_loop (ptr # ptrs) addrs =
     (case ptr of
        None \<Rightarrow> deref_loop ptrs addrs
      | Some a \<Rightarrow> deref_loop ptrs (addrs @ [a]))"

definition derefAddresses :: "address option list \<Rightarrow> address list" where
  "derefAddresses ptrs = deref_loop ptrs []"


section \<open>setup.sh: text utilities used by the script\<close>

type_synonym path = string

definition newline :: char where
  "newline = CHR 0x0A"

text \<open>Command substitution \<^verbatim>\<open>$(...)\<close> removes every trailing newline of the output.\<close>

definition cmdsubst :: "string \<Rightarrow> string" where
  "cmdsubst out = rev (dropWhile (\<lambda>c. c = newline) (rev out))"

text \<open>\<^verbatim>\<open>tr -d '-'\<close> and \<^verbatim>\<open>head -c40\<close>.\<close>

definition tr_d :: "char \<Rightarrow> string \<Rightarrow> string" where
  "tr_d c out = filter (\<lambda>x. x \<noteq> c) out"

definition head_c :: "nat \<Rightarrow> string \<Rightarrow> string" where
  "head_c n out = take n out"

text \<open>The glob test \<^verbatim>\<open>[[ "$X" != *.circom ]]\<close> asks whether the text ends in the suffix.\<close>

definition ends_with :: "string \<Rightarrow> string \<Rightarrow> bool" where
  "ends_with suf s = (length suf \<le> length s \<and> drop (length s - length suf) s = suf)"

text \<open>The regular expression \<^verbatim>\<open>^[0-9]+$\<close>.\<close>

definition is_digit :: "char \<Rightarrow> bool" where
  "is_digit c = (c \<in> set ''0123456789'')"

definition all_digits :: "string \<Rightarrow> bool" where
  "all_digits s = (s \<noteq> [] \<and> list_all is_digit s)"

text \<open>
  The string algorithm of \<^verbatim>\<open>basename\<close>: trailing slashes are dropped, then the text after
  the last remaining slash is kept; a text of slashes only gives \<^verbatim>\<open>/\<close>.
\<close>

definition posix_basename :: "path \<Rightarrow> string" where
  "posix_basename p =
     (if p = [] then []
      else let t = rev (dropWhile (\<lambda>c. c = CHR ''/'') (rev p))
           in if t = [] then ''/''
              else rev (takeWhile (\<lambda>c. c \<noteq> CHR ''/'') (rev t)))"

text \<open>
  The utility \<^verbatim>\<open>basename "${CIRCOM_FILE}"\<close> as a process: exit status and standard output.
  The operand is not protected by \<^verbatim>\<open>--\<close>, so an operand that starts with \<^verbatim>\<open>-\<close> is read as
  options; for an operand that passed the checks before (it ends in \<^verbatim>\<open>.circom\<close>) the option
  parser meets the dot or finds no operand left and the utility exits with status 1 and an
  empty output.
\<close>

definition basename_cmd :: "path \<Rightarrow> nat \<times> string" where
  "basename_cmd p =
     (if p \<noteq> [] \<and> hd p = CHR ''-'' then (1, [])
      else (0, posix_basename p @ [newline]))"

text \<open>
  The parameter expansion \<^verbatim>\<open>${CIRCOM_BASENAME%%.*}\<close> removes the longest suffix matching
  \<^verbatim>\<open>.*\<close>: everything from the first dot on. A text without a dot is unchanged.
\<close>

definition strip_longest_dot_suffix :: "string \<Rightarrow> string" where
  "strip_longest_dot_suffix b = takeWhile (\<lambda>c. c \<noteq> CHR ''.'') b"

definition CIRCOM_NAME :: "string \<Rightarrow> string" where
  "CIRCOM_NAME CIRCOM_BASENAME = strip_longest_dot_suffix CIRCOM_BASENAME"

text \<open>Lines 107 and 108 together, for an operand \<^verbatim>\<open>basename\<close> accepts.\<close>

definition circuit_name :: "path \<Rightarrow> string" where
  "circuit_name CIRCOM_FILE = CIRCOM_NAME (cmdsubst (snd (basename_cmd CIRCOM_FILE)))"

text \<open>
  A file name is looked up from the current directory unless it starts with a slash.
  Paths are compared as texts: the model does not fold \<^verbatim>\<open>//\<close>, \<^verbatim>\<open>.\<close> or \<^verbatim>\<open>..\<close>.
\<close>

definition is_absolute :: "path \<Rightarrow> bool" where
  "is_absolute p = (p \<noteq> [] \<and> hd p = CHR ''/'')"

definition resolve :: "path \<Rightarrow> path \<Rightarrow> path" where
  "resolve cwd p = (if is_absolute p then p else cwd @ ''/'' @ p)"


section \<open>setup.sh: the shell, its files and the external tools\<close>

text \<open>
  The artifact store is the set of paths of the regular files that exist; \<^verbatim>\<open>[[ -f p ]]\<close>
  is membership of the resolved path. Directories are not files: \<^verbatim>\<open>mkdir -p\<close>,
  \<^verbatim>\<open>pushd\<close> of a directory just made and \<^verbatim>\<open>rm -f\<close> are taken to succeed
  (permissions are outside the model).

  The External Tool Gateway is a parameter: \<^verbatim>\<open>circom\<close> and \<^verbatim>\<open>snarkjs\<close> are opaque
  processes that, started in a directory with an argument vector on a store, give an exit
  status and a store. Nothing is assumed about them unless a theorem says so.
\<close>

type_synonym gateway = "path \<Rightarrow> string list \<Rightarrow> path set \<Rightarrow> nat \<times> path set"

text \<open>
  The surroundings of one run: the invocation directory (\<^verbatim>\<open>$(pwd)\<close>), which commands
  \<^verbatim>\<open>command -v\<close> finds, the gateway, and \<^verbatim>\<open>uuidgen\<close>. The script calls \<^verbatim>\<open>uuidgen\<close> at
  seven places, each at most once in a run; \<open>uuidgen e k\<close> is the exit status and the
  standard output of the call at place \<open>k\<close> (lines 133, 137, 142 left, 142 right, 207,
  211, 216 are places 0 to 6).
\<close>

record env =
  pwd :: path
  on_path :: "string \<Rightarrow> bool"
  uuidgen :: "nat \<Rightarrow> nat \<times> string"
  gateway :: gateway

text \<open>\<^verbatim>\<open>uuidgen | tr -d '-' | head -c40\<close> applied to what \<^verbatim>\<open>uuidgen\<close> printed.\<close>

definition uuid_pipeline :: "string \<Rightarrow> string" where
  "uuid_pipeline out = head_c 40 (tr_d (CHR ''-'') out)"

text \<open>
  \<^verbatim>\<open>"$(uuidgen | tr -d '-' | head -c40)"\<close> at place \<open>k\<close>. The status of a command
  substitution inside an argument is dropped, so only the output matters.
\<close>

definition entropy :: "env \<Rightarrow> nat \<Rightarrow> string" where
  "entropy e k = cmdsubst (uuid_pipeline (snd (uuidgen e k)))"

text \<open>
  Line 142: \<^verbatim>\<open>"$(uuidgen | tr -d '-' | head -c40 2>/dev/null || uuidgen | tr -d '-' | head -c40)"\<close>.
  Under \<^verbatim>\<open>pipefail\<close> the left pipeline fails when \<^verbatim>\<open>uuidgen\<close> does (\<^verbatim>\<open>tr\<close> and \<^verbatim>\<open>head\<close>
  are taken to exit 0); only then the right one runs, and its output follows the left one's.
\<close>

definition entropy_or :: "env \<Rightarrow> nat \<Rightarrow> nat \<Rightarrow> string" where
  "entropy_or e k k' =
     cmdsubst (if fst (uuidgen e k) = 0 then uuid_pipeline (snd (uuidgen e k))
               else uuid_pipeline (snd (uuidgen e k)) @ uuid_pipeline (snd (uuidgen e k')))"

datatype colour = GREEN | BLUE | RED | YELLOW

text \<open>
  The simple commands of the script. \<open>Echo c msg\<close> is \<^verbatim>\<open>echo -e "${c}msg${NC}"\<close>;
  \<open>Tool argv\<close> starts \<^verbatim>\<open>circom\<close> or \<^verbatim>\<open>snarkjs\<close> through the gateway.
\<close>

datatype cmd =
    Echo colour string
  | Tool "string list"
  | RmF "path list"
  | MkdirP path
  | Pushd path
  | Popd
  | Exit nat

text \<open>What an observer sees of a run: the commands carried out, with their exit status.\<close>

datatype event = Ran cmd nat

text \<open>
  The state of the shell. \<open>status\<close> is \<open>None\<close> while the script runs and \<open>Some n\<close> once
  the process has ended with exit status \<open>n\<close>.
\<close>

record state =
  files :: "path set"
  cwd :: path
  dirstack :: "path list"
  trace :: "event list"
  status :: "nat option"

text \<open>
  One simple command. Under \<^verbatim>\<open>set -e\<close> a command that returns non-zero ends the script
  with that status. \<^verbatim>\<open>pushd\<close> and \<^verbatim>\<open>popd\<close> write to \<^verbatim>\<open>/dev/null\<close> and leave no event.
\<close>

fun exec :: "gateway \<Rightarrow> cmd \<Rightarrow> state \<Rightarrow> state" where
  "exec gw (Echo c msg) s = s\<lparr>trace := trace s @ [Ran (Echo c msg) 0]\<rparr>"
| "exec gw (Tool argv) s =
     (case gw (cwd s) argv (files s) of
        (st, fs') \<Rightarrow>
          s\<lparr>files := fs',
            trace := trace s @ [Ran (Tool argv) st],
            status := (if st = 0 then status s else Some st)\<rparr>)"
| "exec gw (RmF ps) s =
     s\<lparr>files := files s - set (map (resolve (cwd s)) ps),
       trace := trace s @ [Ran (RmF ps) 0]\<rparr>"
| "exec gw (MkdirP d) s = s\<lparr>trace := trace s @ [Ran (MkdirP d) 0]\<rparr>"
| "exec gw (Pushd d) s = s\<lparr>cwd := resolve (cwd s) d, dirstack := cwd s # dirstack s\<rparr>"
| "exec gw Popd s =
     (case dirstack s of
        [] \<Rightarrow> s\<lparr>status := Some 1\<rparr>
      | d # ds \<Rightarrow> s\<lparr>cwd := d, dirstack := ds\<rparr>)"
| "exec gw (Exit n) s = s\<lparr>status := Some n\<rparr>"

text \<open>A sequence of simple commands: nothing runs once the process has ended.\<close>

fun run :: "gateway \<Rightarrow> cmd list \<Rightarrow> state \<Rightarrow> state" where
  "run gw [] s = s"
| "run gw (c # cs) s = (if status s = None then run gw cs (exec gw c s) else s)"

text \<open>\<^verbatim>\<open>if [[ ! -f p ]]; then thn; else els; fi\<close>.\<close>

definition if_no_file :: "gateway \<Rightarrow> path \<Rightarrow> cmd list \<Rightarrow> cmd list \<Rightarrow> state \<Rightarrow> state" where
  "if_no_file gw p thn els s =
     (if status s \<noteq> None then s
      else if resolve (cwd s) p \<notin> files s then run gw thn s
      else run gw els s)"

text \<open>The end of the script: the status of the last command, an \<^verbatim>\<open>echo\<close>, is 0.\<close>

definition finish :: "state \<Rightarrow> state" where
  "finish s = (if status s = None then s\<lparr>status := Some 0\<rparr> else s)"

text \<open>The events a run added to the trace.\<close>

definition delta :: "state \<Rightarrow> state \<Rightarrow> event list" where
  "delta s s' = drop (length (trace s)) (trace s')"

definition tool_calls :: "event list \<Rightarrow> string list list" where
  "tool_calls evs = concat (map (\<lambda>ev. case ev of Ran (Tool argv) st \<Rightarrow> [argv] | _ \<Rightarrow> []) evs)"


section \<open>setup.sh: the script\<close>

subsection \<open>Arguments and validation (lines 30 to 108)\<close>

text \<open>
  The \<^verbatim>\<open>while [[ $# -gt 0 ]]\<close> loop. After \<^verbatim>\<open>--circom\<close> or \<^verbatim>\<open>--power\<close> the next word
  is the value (\<^verbatim>\<open>"${1:-}"\<close>: empty when there is none); any other word ends the script.
  The pair holds \<^verbatim>\<open>CIRCOM_FILE\<close> and \<^verbatim>\<open>POWER_OF_TAU\<close>; \<open>Inl w\<close> is the unknown option.
\<close>

fun parse_args :: "string list \<Rightarrow> string \<times> string \<Rightarrow> string + string \<times> string" where
  "parse_args [] (c, p) = Inr (c, p)"
| "parse_args [a] (c, p) =
     (if a = ''--circom'' then Inr ([], p)
      else if a = ''--power'' then Inr (c, [])
      else Inl a)"
| "parse_args (a # v # rest) (c, p) =
     (if a = ''--circom'' then parse_args rest (v, p)
      else if a = ''--power'' then parse_args rest (c, v)
      else Inl a)"

definition usage :: "cmd list" where
  "usage =
     [Echo RED ''Usage: ./setup.sh --circom PATH/TO/circuit.circom --power N'',
      Echo RED ''Example: ./setup.sh --circom circuits/Pinacle.circom --power 18'',
      Echo RED ''Options:'',
      Echo RED ''  --circom CIRCOM_FILE   Specify a .circom circuit file'',
      Echo RED ''  --power N              Powers-of-tau exponent (e.g. 17, 18, 19)'',
      Exit 1]"

text \<open>
  The checks of lines 67 to 104 in their order: the first that fails gives the commands that
  end the script, \<open>None\<close> means that all passed.
\<close>

definition validate :: "env \<Rightarrow> path set \<Rightarrow> string \<Rightarrow> string \<Rightarrow> cmd list option" where
  "validate e fs CIRCOM_FILE POWER_OF_TAU =
     (if CIRCOM_FILE = [] then
        Some [Echo RED ''Error: --circom flag is required.'', Exit 1]
      else if resolve (pwd e) CIRCOM_FILE \<notin> fs then
        Some [Echo RED (''Error: Circom file '' @ [CHR 0x27] @ CIRCOM_FILE @ [CHR 0x27]
                        @ '' does not exist.''), Exit 1]
      else if \<not> ends_with ''.circom'' CIRCOM_FILE then
        Some [Echo RED ''Error: Circom file must have .circom extension (e.g. Pinacle.circom).'',
              Exit 1]
      else if POWER_OF_TAU = [] then
        Some [Echo RED ''Error: --power flag is required (e.g. 17, 18, 19...).'', Exit 1]
      else if \<not> all_digits POWER_OF_TAU then
        Some [Echo RED ''Error: Power of tau must be a valid integer.'', Exit 1]
      else if \<not> on_path e ''circom'' then
        Some [Echo RED (''Error: '' @ [CHR 0x27] @ ''circom'' @ [CHR 0x27]
                        @ '' is not installed or not on PATH.''),
              Echo YELLOW ''Hint: see https://docs.circom.io/getting-started/installation/'',
              Exit 1]
      else if \<not> on_path e ''snarkjs'' then
        Some [Echo RED (''Error: '' @ [CHR 0x27] @ ''snarkjs'' @ [CHR 0x27]
                        @ '' is not installed or not on PATH.''),
              Echo YELLOW ''Hint: npm install -g snarkjs'',
              Exit 1]
      else None)"

subsection \<open>Directories and artifact paths (lines 110 to 123, 193, 194)\<close>

definition POWERS_DIR :: "path \<Rightarrow> path" where
  "POWERS_DIR ROOT_DIR = ROOT_DIR @ ''/powersOfTau''"

definition BUILD_DIR :: "path \<Rightarrow> string \<Rightarrow> path" where
  "BUILD_DIR ROOT_DIR name = ROOT_DIR @ ''/circuits/build/'' @ name"

definition KEYS_DIR :: "path \<Rightarrow> string \<Rightarrow> path" where
  "KEYS_DIR ROOT_DIR name = BUILD_DIR ROOT_DIR name @ ''/keys''"

definition PTAU_FILE :: "path \<Rightarrow> string \<Rightarrow> path" where
  "PTAU_FILE ROOT_DIR POWER_OF_TAU =
     POWERS_DIR ROOT_DIR @ ''/pot'' @ POWER_OF_TAU @ ''_final.ptau''"

definition R1CS_FILE :: "path \<Rightarrow> string \<Rightarrow> path" where
  "R1CS_FILE ROOT_DIR name = BUILD_DIR ROOT_DIR name @ ''/'' @ name @ ''.r1cs''"

definition FINAL_ZKEY :: "path \<Rightarrow> string \<Rightarrow> path" where
  "FINAL_ZKEY ROOT_DIR name = KEYS_DIR ROOT_DIR name @ ''/'' @ name @ ''_final.zkey''"

definition VK_JSON :: "path \<Rightarrow> string \<Rightarrow> path" where
  "VK_JSON ROOT_DIR name = KEYS_DIR ROOT_DIR name @ ''/verification_key.json''"

definition beacon_hash :: string where
  "beacon_hash = ''0102030405060708090a0b0c0d0e0f101112131415161718191a1b1c1d1e1f''"

subsection \<open>Powers of tau (lines 125 to 167)\<close>

definition phase1_intermediates :: "string \<Rightarrow> path list" where
  "phase1_intermediates P =
     [''pot'' @ P @ ''_0000.ptau'', ''pot'' @ P @ ''_0001.ptau'', ''pot'' @ P @ ''_0002.ptau'',
      ''challenge_0003'', ''response_0003'', ''pot'' @ P @ ''_0003.ptau'',
      ''pot'' @ P @ ''_beacon.ptau'']"

definition phase1_verify_final :: "string \<Rightarrow> string list" where
  "phase1_verify_final P = [''snarkjs'', ''powersoftau'', ''verify'', ''pot'' @ P @ ''_final.ptau'']"

text \<open>The \<^verbatim>\<open>then\<close> branch up to the last verification (lines 126 to 158).\<close>

definition phase1_ceremony :: "env \<Rightarrow> string \<Rightarrow> cmd list" where
  "phase1_ceremony e P =
     [Echo GREEN (''Starting new powers-of-tau ceremony for power '' @ P @ ''.''),
      Pushd (POWERS_DIR (pwd e)),
      Tool [''snarkjs'', ''powersoftau'', ''new'', ''bn128'', P, ''pot'' @ P @ ''_0000.ptau'', ''-v''],
      Echo GREEN ''First contribution...'',
      Tool [''snarkjs'', ''powersoftau'', ''contribute'',
            ''pot'' @ P @ ''_0000.ptau'', ''pot'' @ P @ ''_0001.ptau'',
            ''--name=First contribution'', ''-v'', ''-e='' @ entropy e 0],
      Echo GREEN ''Second contribution...'',
      Tool [''snarkjs'', ''powersoftau'', ''contribute'',
            ''pot'' @ P @ ''_0001.ptau'', ''pot'' @ P @ ''_0002.ptau'',
            ''--name=Second contribution'', ''-v'', ''-e='' @ entropy e 1],
      Echo GREEN ''Third contribution (bellman challenge)...'',
      Tool [''snarkjs'', ''powersoftau'', ''export'', ''challenge'',
            ''pot'' @ P @ ''_0002.ptau'', ''challenge_0003''],
      Tool [''snarkjs'', ''powersoftau'', ''challenge'', ''contribute'', ''bn128'',
            ''challenge_0003'', ''response_0003'', ''-e='' @ entropy_or e 2 3],
      Tool [''snarkjs'', ''powersoftau'', ''import'', ''response'',
            ''pot'' @ P @ ''_0002.ptau'', ''response_0003'', ''pot'' @ P @ ''_0003.ptau'',
            ''-n=Third contribution''],
      Echo GREEN ''Verifying powers-of-tau...'',
      Tool [''snarkjs'', ''powersoftau'', ''verify'', ''pot'' @ P @ ''_0003.ptau''],
      Echo GREEN ''Applying random beacon...'',
      Tool [''snarkjs'', ''powersoftau'', ''beacon'',
            ''pot'' @ P @ ''_0003.ptau'', ''pot'' @ P @ ''_beacon.ptau'',
            beacon_hash, ''10'', ''-n=Final Beacon''],
      Echo GREEN ''Preparing phase 2...'',
      Tool [''snarkjs'', ''powersoftau'', ''prepare'', ''phase2'',
            ''pot'' @ P @ ''_beacon.ptau'', ''pot'' @ P @ ''_final.ptau'', ''-v''],
      Echo GREEN ''Verifying final ptau...'',
      Tool (phase1_verify_final P)]"

text \<open>The cleanup that ends the branch (lines 160 to 164).\<close>

definition phase1_cleanup :: "string \<Rightarrow> cmd list" where
  "phase1_cleanup P =
     [Echo GREEN ''Cleaning intermediate ptau files...'',
      RmF (phase1_intermediates P),
      Popd]"

definition phase1_cmds :: "env \<Rightarrow> string \<Rightarrow> cmd list" where
  "phase1_cmds e P = phase1_ceremony e P @ phase1_cleanup P"

definition phase1_reuse :: "env \<Rightarrow> string \<Rightarrow> cmd list" where
  "phase1_reuse e P =
     [Echo YELLOW (''Powers-of-tau for power '' @ P @ '' already exists. Reusing ''
                   @ PTAU_FILE (pwd e) P @ ''.'')]"

definition phase1_stage :: "env \<Rightarrow> string \<Rightarrow> state \<Rightarrow> state" where
  "phase1_stage e P s =
     if_no_file (gateway e) (PTAU_FILE (pwd e) P) (phase1_cmds e P) (phase1_reuse e P) s"


subsection \<open>Compiling the circuit (lines 171 to 187)\<close>

text \<open>The path handed to the compiler on line 176: \<^verbatim>\<open>"${ROOT_DIR}/${CIRCOM_FILE}"\<close>.\<close>

definition compiler_path :: "path \<Rightarrow> path \<Rightarrow> path" where
  "compiler_path ROOT_DIR CIRCOM_FILE = ROOT_DIR @ ''/'' @ CIRCOM_FILE"

definition compile_cmds :: "env \<Rightarrow> path \<Rightarrow> string \<Rightarrow> cmd list" where
  "compile_cmds e CIRCOM_FILE name =
     [Echo GREEN ''Compiling circuit with circom...'',
      Pushd (BUILD_DIR (pwd e) name),
      Tool [''circom'', compiler_path (pwd e) CIRCOM_FILE, ''--r1cs'', ''--wasm'', ''--sym''],
      Echo GREEN ''Circuit info:'',
      Tool [''snarkjs'', ''r1cs'', ''info'', name @ ''.r1cs''],
      Echo GREEN ''Printing constraints (for inspection / optional debugging)...'',
      Tool [''snarkjs'', ''r1cs'', ''print'', name @ ''.r1cs'', name @ ''.sym''],
      Popd]"

definition compile_skip :: "env \<Rightarrow> string \<Rightarrow> cmd list" where
  "compile_skip e name =
     [Echo YELLOW (''Circuit already compiled at '' @ R1CS_FILE (pwd e) name
                   @ ''. Skipping compile.'')]"

definition compile_stage :: "env \<Rightarrow> path \<Rightarrow> string \<Rightarrow> state \<Rightarrow> state" where
  "compile_stage e CIRCOM_FILE name s =
     if_no_file (gateway e) (R1CS_FILE (pwd e) name)
       (compile_cmds e CIRCOM_FILE name) (compile_skip e name) s"

subsection \<open>Groth16 setup and export (lines 196 to 241)\<close>

definition phase2_intermediates :: "string \<Rightarrow> path list" where
  "phase2_intermediates name =
     [name @ ''_0000.zkey'', name @ ''_0001.zkey'', name @ ''_0002.zkey'',
      ''challenge_phase2_0003'', ''response_phase2_0003'', name @ ''_0003.zkey'']"

definition phase2_verify_final :: "env \<Rightarrow> string \<Rightarrow> string \<Rightarrow> string list" where
  "phase2_verify_final e P name =
     [''snarkjs'', ''zkey'', ''verify'', ''../'' @ name @ ''.r1cs'', PTAU_FILE (pwd e) P,
      name @ ''_final.zkey'']"

definition phase2_export_vk :: "string \<Rightarrow> string list" where
  "phase2_export_vk name =
     [''snarkjs'', ''zkey'', ''export'', ''verificationkey'', name @ ''_final.zkey'',
      ''verification_key.json'']"

text \<open>The \<^verbatim>\<open>then\<close> branch up to the last verification (lines 197 to 229).\<close>

definition phase2_ceremony :: "env \<Rightarrow> string \<Rightarrow> string \<Rightarrow> cmd list" where
  "phase2_ceremony e P name =
     [Echo GREEN ''Running Groth16 setup and generating proving/verification keys...'',
      Pushd (KEYS_DIR (pwd e) name),
      Tool [''snarkjs'', ''groth16'', ''setup'', ''../'' @ name @ ''.r1cs'', PTAU_FILE (pwd e) P,
            name @ ''_0000.zkey''],
      Echo GREEN ''First zkey contribution...'',
      Tool [''snarkjs'', ''zkey'', ''contribute'', name @ ''_0000.zkey'', name @ ''_0001.zkey'',
            ''--name=First Contribution'', ''-v'', ''-e='' @ entropy e 4],
      Echo GREEN ''Second zkey contribution...'',
      Tool [''snarkjs'', ''zkey'', ''contribute'', name @ ''_0001.zkey'', name @ ''_0002.zkey'',
            ''--name=Second Contribution'', ''-v'', ''-e='' @ entropy e 5],
      Echo GREEN ''Third zkey (bellman) contribution...'',
      Tool [''snarkjs'', ''zkey'', ''export'', ''bellman'', name @ ''_0002.zkey'',
            ''challenge_phase2_0003''],
      Tool [''snarkjs'', ''zkey'', ''bellman'', ''contribute'', ''bn128'',
            ''challenge_phase2_0003'', ''response_phase2_0003'', ''-e='' @ entropy e 6],
      Tool [''snarkjs'', ''zkey'', ''import'', ''bellman'', name @ ''_0002.zkey'',
            ''response_phase2_0003'', name @ ''_0003.zkey'', ''-n=Third Contribution''],
      Echo GREEN ''Verifying latest zkey...'',
      Tool [''snarkjs'', ''zkey'', ''verify'', ''../'' @ name @ ''.r1cs'', PTAU_FILE (pwd e) P,
            name @ ''_0003.zkey''],
      Echo GREEN ''Applying random beacon to zkey...'',
      Tool [''snarkjs'', ''zkey'', ''beacon'', name @ ''_0003.zkey'', name @ ''_final.zkey'',
            beacon_hash, ''10'', ''-n=Final Beacon phase2''],
      Echo GREEN ''Verifying final zkey...'',
      Tool (phase2_verify_final e P name)]"

text \<open>The export of the verification key (lines 231 and 232).\<close>

definition phase2_export :: "string \<Rightarrow> cmd list" where
  "phase2_export name =
     [Echo GREEN ''Exporting verification key JSON...'',
      Tool (phase2_export_vk name)]"

text \<open>The cleanup that ends the branch (lines 234 to 238).\<close>

definition phase2_cleanup :: "string \<Rightarrow> cmd list" where
  "phase2_cleanup name =
     [Echo GREEN ''Cleaning intermediate zkey files...'',
      RmF (phase2_intermediates name),
      Popd]"

definition phase2_cmds :: "env \<Rightarrow> string \<Rightarrow> string \<Rightarrow> cmd list" where
  "phase2_cmds e P name = phase2_ceremony e P name @ phase2_export name @ phase2_cleanup name"

definition phase2_skip :: "env \<Rightarrow> string \<Rightarrow> cmd list" where
  "phase2_skip e name =
     [Echo YELLOW (''Verification key already exists at '' @ VK_JSON (pwd e) name
                   @ ''. Skipping Groth16 setup.'')]"

text \<open>The gate of line 196 tests \<^verbatim>\<open>VK_JSON\<close>.\<close>

definition phase2_stage :: "env \<Rightarrow> string \<Rightarrow> string \<Rightarrow> state \<Rightarrow> state" where
  "phase2_stage e P name s =
     if_no_file (gateway e) (VK_JSON (pwd e) name) (phase2_cmds e P name) (phase2_skip e name) s"

subsection \<open>The whole script\<close>

definition banner :: "env \<Rightarrow> path \<Rightarrow> string \<Rightarrow> cmd list" where
  "banner e CIRCOM_FILE name =
     [Echo GREEN (''Using circuit: '' @ CIRCOM_FILE),
      Echo GREEN (''Circuit name: '' @ name),
      Echo GREEN (''Powers-of-Tau directory: '' @ POWERS_DIR (pwd e)),
      Echo GREEN (''Build directory: '' @ BUILD_DIR (pwd e) name)]"

definition summary :: "env \<Rightarrow> string \<Rightarrow> cmd list" where
  "summary e name =
     [Echo GREEN ''============================================================'',
      Echo GREEN (''Zero-knowledge setup completed for circuit: '' @ name),
      Echo GREEN ''Artifacts:'',
      Echo GREEN (''- R1CS:     '' @ R1CS_FILE (pwd e) name),
      Echo GREEN (''- WASM:     '' @ BUILD_DIR (pwd e) name @ ''/'' @ name @ ''_js/'' @ name
                  @ ''.wasm''),
      Echo GREEN (''- ZKey:     '' @ FINAL_ZKEY (pwd e) name),
      Echo GREEN (''- Verification key: '' @ VK_JSON (pwd e) name),
      Echo GREEN ''You can now generate proofs and verify them with snarkjs,'',
      Echo GREEN ''or wire this verification key into on-chain verifier contracts.'',
      Echo GREEN ''============================================================'']"

text \<open>Lines 110 to 252, for a circuit file, an exponent and the derived circuit name.\<close>

definition pipeline :: "env \<Rightarrow> path \<Rightarrow> string \<Rightarrow> string \<Rightarrow> state \<Rightarrow> state" where
  "pipeline e CIRCOM_FILE P name s =
     finish
       (run (gateway e) (summary e name)
         (phase2_stage e P name
           (run (gateway e) [MkdirP (KEYS_DIR (pwd e) name)]
             (compile_stage e CIRCOM_FILE name
               (run (gateway e) [MkdirP (BUILD_DIR (pwd e) name)]
                 (phase1_stage e P
                   (run (gateway e)
                     (banner e CIRCOM_FILE name @ [MkdirP (POWERS_DIR (pwd e))]) s)))))))"

definition init :: "env \<Rightarrow> path set \<Rightarrow> state" where
  "init e fs = \<lparr>files = fs, cwd = pwd e, dirstack = [], trace = [], status = None\<rparr>"

text \<open>
  The script on an argument vector and a store. A failing \<^verbatim>\<open>basename\<close> in the assignment
  of line 107 ends the script under \<^verbatim>\<open>set -e\<close>.
\<close>

definition setup_sh :: "env \<Rightarrow> string list \<Rightarrow> path set \<Rightarrow> state" where
  "setup_sh e args fs =
     (if args = [] then run (gateway e) usage (init e fs)
      else
        case parse_args args ([], []) of
          Inl w \<Rightarrow> run (gateway e) [Echo RED (''Unknown option: '' @ w), Exit 1] (init e fs)
        | Inr (CIRCOM_FILE, POWER_OF_TAU) \<Rightarrow>
            (case validate e fs CIRCOM_FILE POWER_OF_TAU of
               Some stop \<Rightarrow> run (gateway e) stop (init e fs)
             | None \<Rightarrow>
                 (case basename_cmd CIRCOM_FILE of
                    (st, out) \<Rightarrow>
                      if st \<noteq> 0 then run (gateway e) [Exit st] (init e fs)
                      else pipeline e CIRCOM_FILE POWER_OF_TAU (CIRCOM_NAME (cmdsubst out))
                             (init e fs))))"


section \<open>Notions the properties are stated with\<close>

subsection \<open>Names\<close>

text \<open>
  A base name with its extension stripped, in the usual sense: the last dot and what follows
  it are removed. For a base name that ends in \<^verbatim>\<open>.circom\<close> this removes \<^verbatim>\<open>.circom\<close>.
\<close>

definition extension_stripped :: "string \<Rightarrow> string" where
  "extension_stripped b = rev (tl (dropWhile (\<lambda>c. c \<noteq> CHR ''.'') (rev b)))"


subsection \<open>Entropy tokens\<close>

definition is_hex :: "char \<Rightarrow> bool" where
  "is_hex c = (c \<in> set ''0123456789abcdefABCDEF'')"

text \<open>
  A line as \<^verbatim>\<open>uuidgen\<close> prints it: five groups of 8, 4, 4, 4 and 12 hexadecimal digits
  joined by dashes, and a newline.
\<close>

definition uuid_line :: "string \<Rightarrow> string \<Rightarrow> string \<Rightarrow> string \<Rightarrow> string \<Rightarrow> string" where
  "uuid_line g1 g2 g3 g4 g5 = g1 @ ''-'' @ g2 @ ''-'' @ g3 @ ''-'' @ g4 @ ''-'' @ g5 @ [newline]"

definition uuid_groups :: "string \<Rightarrow> string \<Rightarrow> string \<Rightarrow> string \<Rightarrow> string \<Rightarrow> bool" where
  "uuid_groups g1 g2 g3 g4 g5 =
     (length g1 = 8 \<and> length g2 = 4 \<and> length g3 = 4 \<and> length g4 = 4 \<and> length g5 = 12
      \<and> list_all is_hex (g1 @ g2 @ g3 @ g4 @ g5))"

definition uuid_sample :: string where
  "uuid_sample = uuid_line ''123e4567'' ''e89b'' ''12d3'' ''a456'' ''426614174000''"

subsection \<open>The argument grammar of the proving-system commands\<close>

text \<open>
  The ceremony commands take their files as positional arguments. A step names what a
  command reads and what it writes: \<open>Init out\<close> makes the first parameter file of a chain
  (\<^verbatim>\<open>powersoftau new\<close>, \<^verbatim>\<open>groth16 setup\<close>), \<open>Contribute i out\<close>, \<open>Beacon i out\<close> and
  \<open>PreparePhase2 i out\<close> turn \<open>i\<close> into \<open>out\<close>, \<open>ExportChallenge i ch\<close> writes the challenge
  of \<open>i\<close>, \<open>Respond ch rs\<close> answers a challenge, \<open>ImportResponse i rs out\<close> chains the
  response onto \<open>i\<close>, \<open>Verify f\<close> checks \<open>f\<close> and \<open>ExportKey i out\<close> writes the
  verification key of \<open>i\<close>.
\<close>

datatype step =
    Init path
  | Contribute path path
  | ExportChallenge path path
  | Respond path path
  | ImportResponse path path path
  | Verify path
  | Beacon path path
  | PreparePhase2 path path
  | ExportKey path path
  | Other

definition rule :: "string list \<Rightarrow> (string list \<Rightarrow> step option) \<Rightarrow> string list \<Rightarrow> step option" where
  "rule kw build argv =
     (if take (length kw) argv = kw then build (drop (length kw) argv) else None)"

fun arg1 :: "(path \<Rightarrow> step) \<Rightarrow> string list \<Rightarrow> step option" where
  "arg1 f (a # _) = Some (f a)"
| "arg1 f _ = None"

fun arg2 :: "(path \<Rightarrow> path \<Rightarrow> step) \<Rightarrow> string list \<Rightarrow> step option" where
  "arg2 f (a # b # _) = Some (f a b)"
| "arg2 f _ = None"

fun arg3 :: "(path \<Rightarrow> path \<Rightarrow> path \<Rightarrow> step) \<Rightarrow> string list \<Rightarrow> step option" where
  "arg3 f (a # b # c # _) = Some (f a b c)"
| "arg3 f _ = None"

definition grammar :: "(string list \<Rightarrow> step option) list" where
  "grammar =
     [rule [''snarkjs'', ''powersoftau'', ''new''] (arg3 (\<lambda>curve n out. Init out)),
      rule [''snarkjs'', ''powersoftau'', ''contribute''] (arg2 Contribute),
      rule [''snarkjs'', ''powersoftau'', ''export'', ''challenge''] (arg2 ExportChallenge),
      rule [''snarkjs'', ''powersoftau'', ''challenge'', ''contribute'']
        (arg3 (\<lambda>curve ch rs. Respond ch rs)),
      rule [''snarkjs'', ''powersoftau'', ''import'', ''response''] (arg3 ImportResponse),
      rule [''snarkjs'', ''powersoftau'', ''verify''] (arg1 Verify),
      rule [''snarkjs'', ''powersoftau'', ''beacon''] (arg2 Beacon),
      rule [''snarkjs'', ''powersoftau'', ''prepare'', ''phase2''] (arg2 PreparePhase2),
      rule [''snarkjs'', ''groth16'', ''setup''] (arg3 (\<lambda>r1cs ptau out. Init out)),
      rule [''snarkjs'', ''zkey'', ''contribute''] (arg2 Contribute),
      rule [''snarkjs'', ''zkey'', ''export'', ''bellman''] (arg2 ExportChallenge),
      rule [''snarkjs'', ''zkey'', ''bellman'', ''contribute'']
        (arg3 (\<lambda>curve ch rs. Respond ch rs)),
      rule [''snarkjs'', ''zkey'', ''import'', ''bellman''] (arg3 ImportResponse),
      rule [''snarkjs'', ''zkey'', ''verify''] (arg3 (\<lambda>r1cs ptau zkey. Verify zkey)),
      rule [''snarkjs'', ''zkey'', ''beacon''] (arg2 Beacon),
      rule [''snarkjs'', ''zkey'', ''export'', ''verificationkey''] (arg2 ExportKey)]"

definition step_of :: "string list \<Rightarrow> step" where
  "step_of argv = (case List.map_filter (\<lambda>r. r argv) grammar of [] \<Rightarrow> Other | st # _ \<Rightarrow> st)"

fun step_outputs :: "step \<Rightarrow> path list" where
  "step_outputs (Init out) = [out]"
| "step_outputs (Contribute i out) = [out]"
| "step_outputs (ExportChallenge i ch) = [ch]"
| "step_outputs (Respond ch rs) = [rs]"
| "step_outputs (ImportResponse i rs out) = [out]"
| "step_outputs (Verify f) = []"
| "step_outputs (Beacon i out) = [out]"
| "step_outputs (PreparePhase2 i out) = [out]"
| "step_outputs (ExportKey i out) = [out]"
| "step_outputs Other = []"

definition steps :: "event list \<Rightarrow> step list" where
  "steps evs = map step_of (tool_calls evs)"

subsection \<open>Sample surroundings\<close>

text \<open>
  A gateway whose tools always succeed and write the files their arguments name, and one
  whose tools do the same except that the commands starting with the words \<open>kw\<close> fail.
\<close>

definition demo_gateway :: gateway where
  "demo_gateway dir argv fs = (0, fs \<union> set (map (resolve dir) (step_outputs (step_of argv))))"


definition demo_env :: env where
  "demo_env = \<lparr>pwd = ''/work'', on_path = (\<lambda>c. True), uuidgen = (\<lambda>k. (0, uuid_sample)),
               gateway = demo_gateway\<rparr>"






subsection \<open>Reading a trace\<close>

fun cmd_of :: "event \<Rightarrow> cmd" where
  "cmd_of (Ran c st) = c"

fun code :: "event \<Rightarrow> nat" where
  "code (Ran c st) = st"

text \<open>A failed tool invocation: \<^verbatim>\<open>circom\<close> or \<^verbatim>\<open>snarkjs\<close> returned non-zero.\<close>

fun failed :: "event \<Rightarrow> bool" where
  "failed (Ran (Tool argv) st) = (st \<noteq> 0)"
| "failed (Ran c st) = False"

text \<open>The commands that leave an event when they run.\<close>

fun is_logged :: "cmd \<Rightarrow> bool" where
  "is_logged (Pushd d) = False"
| "is_logged Popd = False"
| "is_logged (Exit n) = False"
| "is_logged c = True"

definition logged :: "cmd list \<Rightarrow> cmd list" where
  "logged cs = filter is_logged cs"






subsection \<open>Tools that keep their contract\<close>




subsection \<open>Contribution chains\<close>

definition tool_cmds :: "cmd list \<Rightarrow> string list list" where
  "tool_cmds cs = concat (map (\<lambda>c. case c of Tool argv \<Rightarrow> [argv] | _ \<Rightarrow> []) cs)"

text \<open>
  A checker for a sequence of steps. It carries the newest parameter file of the chain, the
  challenge exported from it and the response to that challenge. A step that reads a
  parameter file must read the newest one, which is what the step before it in the chain
  wrote; a response must answer the exported challenge, and the import must chain that
  response onto the file the challenge came from.
\<close>

fun chained :: "path option \<times> path option \<times> path option \<Rightarrow> step list \<Rightarrow> bool" where
  "chained st [] = True"
| "chained (h, c, r) (Init out # xs) = (h = None \<and> chained (Some out, None, None) xs)"
| "chained (h, c, r) (Contribute i out # xs) = (h = Some i \<and> chained (Some out, None, None) xs)"
| "chained (h, c, r) (ExportChallenge i ch # xs) = (h = Some i \<and> chained (h, Some ch, None) xs)"
| "chained (h, c, r) (Respond ch rs # xs) = (c = Some ch \<and> chained (h, c, Some rs) xs)"
| "chained (h, c, r) (ImportResponse i rs out # xs) =
     (h = Some i \<and> r = Some rs \<and> chained (Some out, None, None) xs)"
| "chained (h, c, r) (Verify f # xs) = (h = Some f \<and> chained (h, c, r) xs)"
| "chained (h, c, r) (Beacon i out # xs) = (h = Some i \<and> chained (Some out, None, None) xs)"
| "chained (h, c, r) (PreparePhase2 i out # xs) =
     (h = Some i \<and> chained (Some out, None, None) xs)"
| "chained (h, c, r) (ExportKey i out # xs) = (h = Some i \<and> chained (h, c, r) xs)"
| "chained (h, c, r) (Other # xs) = False"

text \<open>
  The order the specification gives: \<open>f0\<close> feeds contribution A producing \<open>f1\<close>, \<open>f1\<close>
  feeds contribution B producing \<open>f2\<close>, the challenge is exported from \<open>f2\<close>, the imported
  response produces \<open>f3\<close> chained onto \<open>f2\<close>, the chain is verified on \<open>f3\<close>, and then
  the beacon consumes \<open>f3\<close>.
\<close>

definition chain_order ::
  "path \<Rightarrow> path \<Rightarrow> path \<Rightarrow> path \<Rightarrow> path \<Rightarrow> path \<Rightarrow> path \<Rightarrow> step list" where
  "chain_order f0 f1 f2 ch rs f3 fb =
     [Init f0, Contribute f0 f1, Contribute f1 f2, ExportChallenge f2 ch, Respond ch rs,
      ImportResponse f2 rs f3, Verify f3, Beacon f3 fb]"

definition phase1_chain :: "string \<Rightarrow> step list" where
  "phase1_chain P =
     chain_order (''pot'' @ P @ ''_0000.ptau'') (''pot'' @ P @ ''_0001.ptau'')
       (''pot'' @ P @ ''_0002.ptau'') ''challenge_0003'' ''response_0003''
       (''pot'' @ P @ ''_0003.ptau'') (''pot'' @ P @ ''_beacon.ptau'')
     @ [PreparePhase2 (''pot'' @ P @ ''_beacon.ptau'') (''pot'' @ P @ ''_final.ptau''),
        Verify (''pot'' @ P @ ''_final.ptau'')]"

definition phase2_chain :: "string \<Rightarrow> step list" where
  "phase2_chain name =
     chain_order (name @ ''_0000.zkey'') (name @ ''_0001.zkey'') (name @ ''_0002.zkey'')
       ''challenge_phase2_0003'' ''response_phase2_0003'' (name @ ''_0003.zkey'')
       (name @ ''_final.zkey'')
     @ [Verify (name @ ''_final.zkey''),
        ExportKey (name @ ''_final.zkey'') ''verification_key.json'']"


section \<open>Properties of derefAddresses\<close>

lemma deref_loop_acc:
  "deref_loop ptrs addrs = addrs @ map the (filter (\<lambda>p. p \<noteq> None) ptrs)"
  by (induction ptrs arbitrary: addrs) (auto split: option.splits)

lemma length_filter_eq_iff:
  "(length (filter P xs) = length xs) = (\<forall>x \<in> set xs. P x)"
proof (induction xs)
  case Nil
  show ?case by simp
next
  case (Cons x xs)
  have ne: "length (filter P xs) \<noteq> Suc (length xs)"
    using length_filter_le [of P xs] by linarith
  show ?case
  proof (cases "P x")
    case True
    with Cons show ?thesis by simp
  next
    case False
    with ne show ?thesis by simp
  qed
qed

text \<open>
  C10. For every slice of address pointers, derefAddresses returns the pointed-to values of
  the non-nil entries in their original order; the result is never longer than the input,
  and it is as long as the input exactly when the input holds no nil pointer.
\<close>

theorem derefAddresses_spec:
  "derefAddresses ptrs = map the (filter (\<lambda>p. p \<noteq> None) ptrs)
   \<and> length (derefAddresses ptrs) \<le> length ptrs
   \<and> ((length (derefAddresses ptrs) = length ptrs) = (None \<notin> set ptrs))"
proof -
  have eq: "derefAddresses ptrs = map the (filter (\<lambda>p. p \<noteq> None) ptrs)"
    by (simp add: derefAddresses_def deref_loop_acc)
  have le: "length (derefAddresses ptrs) \<le> length ptrs"
    by (simp add: eq)
  have "(length (filter (\<lambda>p. p \<noteq> None) ptrs) = length ptrs) = (\<forall>p \<in> set ptrs. p \<noteq> None)"
    by (rule length_filter_eq_iff)
  then have iff: "(length (derefAddresses ptrs) = length ptrs) = (None \<notin> set ptrs)"
    by (auto simp: eq)
  from eq le iff show ?thesis by blast
qed

section \<open>Properties of the circuit name\<close>

lemma ends_withD:
  assumes "ends_with suf s"
  shows "\<exists>g. s = g @ suf"
proof -
  from assms have "drop (length s - length suf) s = suf"
    by (simp add: ends_with_def)
  with append_take_drop_id [of "length s - length suf" s]
  have "s = take (length s - length suf) s @ suf" by simp
  then show ?thesis ..
qed

lemma posix_basename_circom:
  "posix_basename (g @ ''.circom'') = rev (takeWhile (\<lambda>c. c \<noteq> CHR ''/'') (rev g)) @ ''.circom''"
  by (simp add: posix_basename_def)

lemma cmdsubst_line_circom: "cmdsubst ((b0 @ ''.circom'') @ [newline]) = b0 @ ''.circom''"
  by (simp add: cmdsubst_def newline_def)

lemma basename_cmd_ok: "fst (basename_cmd f) = 0 \<Longrightarrow> basename_cmd f = (0, posix_basename f @ [newline])"
  by (simp add: basename_cmd_def split: if_splits)

lemma circuit_name_circom:
  assumes "fst (basename_cmd (g @ ''.circom'')) = 0"
  shows "circuit_name (g @ ''.circom'') =
         takeWhile (\<lambda>c. c \<noteq> CHR ''.'') (rev (takeWhile (\<lambda>c. c \<noteq> CHR ''/'') (rev g)) @ ''.circom'')"
  using basename_cmd_ok [OF assms]
  by (simp only: circuit_name_def CIRCOM_NAME_def strip_longest_dot_suffix_def snd_conv
        posix_basename_circom cmdsubst_line_circom)

lemma extension_stripped_circom: "extension_stripped (b0 @ ''.circom'') = b0"
  by (simp add: extension_stripped_def)

lemma takeWhile_stops_at:
  "\<not> P y \<Longrightarrow> (takeWhile P (xs @ y # ys) = xs) = (\<forall>x \<in> set xs. P x)"
  by (induction xs) auto

lemma takeWhile_first_dot:
  "(takeWhile (\<lambda>c. c \<noteq> CHR ''.'') (b0 @ ''.circom'') = b0) = (CHR ''.'' \<notin> set b0)"
proof -
  have "(takeWhile (\<lambda>c. c \<noteq> CHR ''.'') (b0 @ CHR ''.'' # ''circom'') = b0)
        = (\<forall>x \<in> set b0. x \<noteq> CHR ''.'')"
    by (rule takeWhile_stops_at) simp
  then show ?thesis by auto
qed

lemma validate_ends: "validate e fs f P = None \<Longrightarrow> ends_with ''.circom'' f \<and> f \<noteq> [] \<and> resolve (pwd e) f \<in> fs \<and> all_digits P"
  by (simp add: validate_def split: if_splits)

lemma setup_sh_accepted:
  assumes "args \<noteq> []" "parse_args args ([], []) = Inr (f, P)" "validate e fs f P = None"
    "fst (basename_cmd f) = 0"
  shows "setup_sh e args fs = pipeline e f P (circuit_name f) (init e fs)"
proof -
  have "basename_cmd f = (0, posix_basename f @ [newline])"
    using assms(4) by (rule basename_cmd_ok)
  with assms(1-3) show ?thesis
    by (simp add: setup_sh_def circuit_name_def)
qed


lemma circuit_name_accepted:
  assumes "validate e fs f P = None" and "fst (basename_cmd f) = 0"
  obtains b0 where "posix_basename f = b0 @ ''.circom''" and "CHR ''/'' \<notin> set b0"
    and "circuit_name f = takeWhile (\<lambda>c. c \<noteq> CHR ''.'') (b0 @ ''.circom'')"
proof -
  from assms(1) have "ends_with ''.circom'' f" by (simp add: validate_ends)
  then obtain g where g: "f = g @ ''.circom''" using ends_withD by blast
  let ?b0 = "rev (takeWhile (\<lambda>c. c \<noteq> CHR ''/'') (rev g))"
  have 1: "posix_basename f = ?b0 @ ''.circom''"
    unfolding g by (rule posix_basename_circom)
  have 2: "CHR ''/'' \<notin> set ?b0"
    by (auto dest: set_takeWhileD)
  have 3: "circuit_name f = takeWhile (\<lambda>c. c \<noteq> CHR ''.'') (?b0 @ ''.circom'')"
    using assms(2) unfolding g by (rule circuit_name_circom)
  from 1 2 3 show thesis by (rule that)
qed

text \<open>
  C7, as the script has it. For every accepted \<^verbatim>\<open>--circom\<close> path (the argument vector
  parses, the checks pass and \<^verbatim>\<open>basename\<close> succeeds) the circuit name is the base name
  cut at its first dot: \<^verbatim>\<open>Pinacle.circom\<close> gives \<^verbatim>\<open>Pinacle\<close>, and the name is the base
  name without its extension exactly when that text has no dot of its own. The script
  runs the pipeline with this name, and the artifact paths are built from the invocation
  directory and the name alone.
\<close>

theorem circuit_name_cut_at_first_dot:
  assumes "args \<noteq> []" and "parse_args args ([], []) = Inr (f, P)"
    and "validate e fs f P = None" and "fst (basename_cmd f) = 0"
  shows "circuit_name f = takeWhile (\<lambda>c. c \<noteq> CHR ''.'') (posix_basename f)
    \<and> ((circuit_name f = extension_stripped (posix_basename f))
        = (CHR ''.'' \<notin> set (extension_stripped (posix_basename f))))
    \<and> setup_sh e args fs = pipeline e f P (circuit_name f) (init e fs)
    \<and> R1CS_FILE (pwd e) (circuit_name f)
        = pwd e @ ''/circuits/build/'' @ circuit_name f @ ''/'' @ circuit_name f @ ''.r1cs''
    \<and> FINAL_ZKEY (pwd e) (circuit_name f)
        = pwd e @ ''/circuits/build/'' @ circuit_name f @ ''/keys/'' @ circuit_name f
          @ ''_final.zkey''
    \<and> VK_JSON (pwd e) (circuit_name f)
        = pwd e @ ''/circuits/build/'' @ circuit_name f @ ''/keys/verification_key.json''"
proof -
  from assms(3,4) obtain b0 where b: "posix_basename f = b0 @ ''.circom''"
    and n: "circuit_name f = takeWhile (\<lambda>c. c \<noteq> CHR ''.'') (b0 @ ''.circom'')"
    by (rule circuit_name_accepted)
  have 1: "circuit_name f = takeWhile (\<lambda>c. c \<noteq> CHR ''.'') (posix_basename f)"
    by (simp only: n b)
  have 2: "(circuit_name f = extension_stripped (posix_basename f))
        = (CHR ''.'' \<notin> set (extension_stripped (posix_basename f)))"
    by (simp only: n b extension_stripped_circom takeWhile_first_dot)
  have 3: "setup_sh e args fs = pipeline e f P (circuit_name f) (init e fs)"
    using assms by (rule setup_sh_accepted)
  have 4: "R1CS_FILE (pwd e) (circuit_name f)
        = pwd e @ ''/circuits/build/'' @ circuit_name f @ ''/'' @ circuit_name f @ ''.r1cs''"
    by (simp add: R1CS_FILE_def BUILD_DIR_def)
  have 5: "FINAL_ZKEY (pwd e) (circuit_name f)
        = pwd e @ ''/circuits/build/'' @ circuit_name f @ ''/keys/'' @ circuit_name f
          @ ''_final.zkey''"
    by (simp add: FINAL_ZKEY_def KEYS_DIR_def BUILD_DIR_def)
  have 6: "VK_JSON (pwd e) (circuit_name f)
        = pwd e @ ''/circuits/build/'' @ circuit_name f @ ''/keys/verification_key.json''"
    by (simp add: VK_JSON_def KEYS_DIR_def BUILD_DIR_def)
  from 1 2 3 4 5 6 show ?thesis by blast
qed

lemma demo_validate_Pinacle:
  "validate demo_env {''/work/circuits/Pinacle.circom''} ''circuits/Pinacle.circom'' ''18'' = None"
  by code_simp

lemma demo_basename_Pinacle: "fst (basename_cmd ''circuits/Pinacle.circom'') = 0"
  by code_simp

theorem circuit_name_cut_at_first_dot_witness:
  "circuit_name ''circuits/Pinacle.circom'' = ''Pinacle''
   \<and> extension_stripped (posix_basename ''circuits/Pinacle.circom'') = ''Pinacle''
   \<and> setup_sh demo_env [''--circom'', ''circuits/Pinacle.circom'', ''--power'', ''18'']
        {''/work/circuits/Pinacle.circom''}
      = pipeline demo_env ''circuits/Pinacle.circom'' ''18'' ''Pinacle''
          (init demo_env {''/work/circuits/Pinacle.circom''})"
proof -
  have a: "[''--circom'', ''circuits/Pinacle.circom'', ''--power'', ''18''] \<noteq> []" by simp
  have p: "parse_args [''--circom'', ''circuits/Pinacle.circom'', ''--power'', ''18''] ([], [])
           = Inr (''circuits/Pinacle.circom'', ''18'')" by simp
  have n: "circuit_name ''circuits/Pinacle.circom'' = ''Pinacle''" by code_simp
  have x: "extension_stripped (posix_basename ''circuits/Pinacle.circom'') = ''Pinacle''"
    by code_simp
  from circuit_name_cut_at_first_dot [OF a p demo_validate_Pinacle demo_basename_Pinacle] n x
  show ?thesis by simp
qed

text \<open>
  The claim as written fails for a base name with an interior dot: the accepted path
  \<^verbatim>\<open>circuits/my.circuit.circom\<close> gives the name \<^verbatim>\<open>my\<close>, not \<^verbatim>\<open>my.circuit\<close>.
\<close>

theorem interior_dots_counterexample:
  "validate demo_env {''/work/circuits/my.circuit.circom''} ''circuits/my.circuit.circom'' ''12''
     = None
   \<and> fst (basename_cmd ''circuits/my.circuit.circom'') = 0
   \<and> circuit_name ''circuits/my.circuit.circom'' = ''my''
   \<and> extension_stripped (posix_basename ''circuits/my.circuit.circom'') = ''my.circuit''
   \<and> circuit_name ''circuits/my.circuit.circom''
       \<noteq> extension_stripped (posix_basename ''circuits/my.circuit.circom'')"
  by code_simp






section \<open>Properties of the compile step\<close>

lemma resolve_absolute: "is_absolute f \<Longrightarrow> resolve d f = f"
  by (simp add: resolve_def)






section \<open>Properties of the entropy tokens\<close>

lemma is_hex_not_dash: "is_hex c \<Longrightarrow> c \<noteq> CHR ''-''"
  by (auto simp: is_hex_def)

lemma is_hex_not_newline: "is_hex c \<Longrightarrow> c \<noteq> newline"
  by (auto simp: is_hex_def newline_def)

lemma tr_d_hex: "list_all is_hex g \<Longrightarrow> tr_d (CHR ''-'') g = g"
  by (induction g) (auto simp: tr_d_def dest: is_hex_not_dash)

lemma tr_d_append: "tr_d c (xs @ ys) = tr_d c xs @ tr_d c ys"
  by (simp add: tr_d_def)

lemma tr_d_dash: "tr_d (CHR ''-'') (CHR ''-'' # xs) = tr_d (CHR ''-'') xs"
  by (simp add: tr_d_def)

lemma tr_d_newline: "tr_d (CHR ''-'') [newline] = [newline]"
  by (simp add: tr_d_def newline_def)

lemma cmdsubst_hex_line:
  assumes "list_all is_hex g"
  shows "cmdsubst (g @ [newline]) = g"
proof (cases "g = []")
  case True
  then show ?thesis by (simp add: cmdsubst_def)
next
  case False
  then have "is_hex (last g)" using assms by (simp add: list_all_iff)
  then have "last g \<noteq> newline" by (rule is_hex_not_newline)
  with False have "dropWhile (\<lambda>c. c = newline) (rev g) = rev g"
    by (cases "rev g") (auto simp: last_rev [symmetric] simp del: last_rev)
  then show ?thesis by (simp add: cmdsubst_def)
qed

lemma uuid_token:
  assumes "uuid_groups g1 g2 g3 g4 g5"
  shows "cmdsubst (uuid_pipeline (uuid_line g1 g2 g3 g4 g5)) = g1 @ g2 @ g3 @ g4 @ g5"
    and "length (cmdsubst (uuid_pipeline (uuid_line g1 g2 g3 g4 g5))) = 32"
    and "list_all is_hex (cmdsubst (uuid_pipeline (uuid_line g1 g2 g3 g4 g5)))"
proof -
  from assms have h: "list_all is_hex g1" "list_all is_hex g2" "list_all is_hex g3"
    "list_all is_hex g4" "list_all is_hex g5"
    and all: "list_all is_hex (g1 @ g2 @ g3 @ g4 @ g5)"
    and len: "length (g1 @ g2 @ g3 @ g4 @ g5) = 32"
    by (simp_all add: uuid_groups_def)
  have "tr_d (CHR ''-'') (uuid_line g1 g2 g3 g4 g5) = (g1 @ g2 @ g3 @ g4 @ g5) @ [newline]"
    using h by (simp add: uuid_line_def tr_d_append tr_d_dash tr_d_hex tr_d_newline)
  moreover have "take 40 ((g1 @ g2 @ g3 @ g4 @ g5) @ [newline]) = (g1 @ g2 @ g3 @ g4 @ g5) @ [newline]"
    using len by simp
  ultimately have "uuid_pipeline (uuid_line g1 g2 g3 g4 g5) = (g1 @ g2 @ g3 @ g4 @ g5) @ [newline]"
    by (simp add: uuid_pipeline_def head_c_def)
  then show 1: "cmdsubst (uuid_pipeline (uuid_line g1 g2 g3 g4 g5)) = g1 @ g2 @ g3 @ g4 @ g5"
    using cmdsubst_hex_line [OF all] by simp
  show "length (cmdsubst (uuid_pipeline (uuid_line g1 g2 g3 g4 g5))) = 32"
    unfolding 1 by (rule len)
  show "list_all is_hex (cmdsubst (uuid_pipeline (uuid_line g1 g2 g3 g4 g5)))"
    unfolding 1 by (rule all)
qed

text \<open>
  Whatever well-formed line \<^verbatim>\<open>uuidgen\<close> prints at a place, the token the script passes
  with \<^verbatim>\<open>-e=\<close> is its 32 hexadecimal digits: \<^verbatim>\<open>head -c40\<close> never has 40 to take.
\<close>

lemma entropy_of_uuid:
  assumes "uuid_groups g1 g2 g3 g4 g5" and "uuidgen e k = (0, uuid_line g1 g2 g3 g4 g5)"
  shows "entropy e k = g1 @ g2 @ g3 @ g4 @ g5 \<and> length (entropy e k) = 32
    \<and> list_all is_hex (entropy e k) \<and> entropy_or e k k' = entropy e k"
  using uuid_token [OF assms(1)] assms(2) by (simp add: entropy_def entropy_or_def)

text \<open>
  C1 at a sample line of \<^verbatim>\<open>uuidgen\<close>: the token of each of the six contribution steps is
  made of 32 hexadecimal digits, fewer than the 40 the claim asks for, and this is the
  token in the argument vector of the first contribution.
\<close>

theorem entropy_token_has_32_digits:
  "uuid_sample = ''123e4567-e89b-12d3-a456-426614174000'' @ [newline]
   \<and> entropy demo_env 0 = ''123e4567e89b12d3a456426614174000''
   \<and> map length [entropy demo_env 0, entropy demo_env 1, entropy_or demo_env 2 3,
                  entropy demo_env 4, entropy demo_env 5, entropy demo_env 6]
      = [32, 32, 32, 32, 32, 32]
   \<and> length (entropy demo_env 0) < 40
   \<and> Tool [''snarkjs'', ''powersoftau'', ''contribute'', ''pot12_0000.ptau'', ''pot12_0001.ptau'',
            ''--name=First contribution'', ''-v'', ''-e=123e4567e89b12d3a456426614174000'']
        \<in> set (phase1_ceremony demo_env ''12'')"
  by code_simp

section \<open>Properties of the shell\<close>

lemma run_stopped: "status s \<noteq> None \<Longrightarrow> run gw cs s = s"
  by (cases cs) auto


lemma exec_events:
  "\<exists>evs. trace (exec gw c s) = trace s @ evs \<and> map cmd_of evs = logged [c]
     \<and> (status (exec gw c s) = None \<longrightarrow> (\<forall>ev \<in> set evs. code ev = 0))
     \<and> (\<forall>ev \<in> set evs. failed ev \<longrightarrow> status (exec gw c s) = Some (code ev))
     \<and> (\<forall>ev \<in> set evs. code ev = 0 \<or> failed ev)"
  by (cases c) (auto simp: logged_def split: prod.splits list.splits)

lemma run_events:
  "\<exists>evs. trace (run gw cs s) = trace s @ evs
     \<and> prefix (map cmd_of evs) (logged cs)
     \<and> (status (run gw cs s) = None \<longrightarrow> status s = None \<and> evs = map (\<lambda>c. Ran c 0) (logged cs))
     \<and> (\<forall>ev \<in> set (butlast evs). code ev = 0)
     \<and> (status s = None \<longrightarrow> (\<forall>ev \<in> set evs. failed ev \<longrightarrow> status (run gw cs s) = Some (code ev)))
     \<and> (\<forall>ev \<in> set evs. code ev = 0 \<or> failed ev)"
proof (induction cs arbitrary: s)
  case Nil
  show ?case by (simp add: logged_def)
next
  case (Cons c cs)
  show ?case
  proof (cases "status s = None")
    case False
    then have "run gw (c # cs) s = s" by (rule run_stopped)
    with False show ?thesis by (intro exI [of _ "[]"]) auto
  next
    case True
    from exec_events [of gw c s] obtain e1 where x1:
      "trace (exec gw c s) = trace s @ e1 \<and> map cmd_of e1 = logged [c]
       \<and> (status (exec gw c s) = None \<longrightarrow> (\<forall>ev \<in> set e1. code ev = 0))
       \<and> (\<forall>ev \<in> set e1. failed ev \<longrightarrow> status (exec gw c s) = Some (code ev))
       \<and> (\<forall>ev \<in> set e1. code ev = 0 \<or> failed ev)" ..
    note e1 = x1 [THEN conjunct1] x1 [THEN conjunct2, THEN conjunct1]
      x1 [THEN conjunct2, THEN conjunct2, THEN conjunct1]
      x1 [THEN conjunct2, THEN conjunct2, THEN conjunct2, THEN conjunct1]
      x1 [THEN conjunct2, THEN conjunct2, THEN conjunct2, THEN conjunct2]
    from Cons.IH [of "exec gw c s"] obtain e2 where x2:
      "trace (run gw cs (exec gw c s)) = trace (exec gw c s) @ e2
       \<and> prefix (map cmd_of e2) (logged cs)
       \<and> (status (run gw cs (exec gw c s)) = None \<longrightarrow>
            status (exec gw c s) = None \<and> e2 = map (\<lambda>c. Ran c 0) (logged cs))
       \<and> (\<forall>ev \<in> set (butlast e2). code ev = 0)
       \<and> (status (exec gw c s) = None \<longrightarrow>
            (\<forall>ev \<in> set e2. failed ev \<longrightarrow> status (run gw cs (exec gw c s)) = Some (code ev)))
       \<and> (\<forall>ev \<in> set e2. code ev = 0 \<or> failed ev)" ..
    note e2 = x2 [THEN conjunct1] x2 [THEN conjunct2, THEN conjunct1]
      x2 [THEN conjunct2, THEN conjunct2, THEN conjunct1]
      x2 [THEN conjunct2, THEN conjunct2, THEN conjunct2, THEN conjunct1]
      x2 [THEN conjunct2, THEN conjunct2, THEN conjunct2, THEN conjunct2, THEN conjunct1]
      x2 [THEN conjunct2, THEN conjunct2, THEN conjunct2, THEN conjunct2, THEN conjunct2]
    have r: "run gw (c # cs) s = run gw cs (exec gw c s)"
      using True by simp
    have lg: "logged (c # cs) = logged [c] @ logged cs"
      by (simp add: logged_def)
    show ?thesis
    proof (cases "status (exec gw c s) = None")
      case ok: True
      have z: "\<forall>ev \<in> set e1. code ev = 0" using e1(3) ok by simp
      have e1eq: "e1 = map (\<lambda>c. Ran c 0) (logged [c])"
      proof -
        have "\<forall>ev \<in> set e1. ev = Ran (cmd_of ev) 0"
        proof
          fix ev assume "ev \<in> set e1"
          with z have "code ev = 0" by simp
          then show "ev = Ran (cmd_of ev) 0" by (cases ev) simp
        qed
        then have "e1 = map (\<lambda>c. Ran c 0) (map cmd_of e1)"
          by (simp add: map_idI comp_def)
        then show ?thesis by (simp only: e1(2))
      qed
      have t: "trace (run gw (c # cs) s) = trace s @ (e1 @ e2)"
        by (simp only: r e2(1) e1(1) append_assoc)
      have p: "prefix (map cmd_of (e1 @ e2)) (logged (c # cs))"
        using e2(2) by (simp add: lg e1(2))
      have a: "status (run gw (c # cs) s) = None \<longrightarrow>
          status s = None \<and> e1 @ e2 = map (\<lambda>c. Ran c 0) (logged (c # cs))"
        using e2(3) True e1eq by (simp only: r lg map_append) simp
      have b: "\<forall>ev \<in> set (butlast (e1 @ e2)). code ev = 0"
        using z e2(4) by (auto simp: butlast_append dest: in_set_butlastD)
      have f: "\<forall>ev \<in> set (e1 @ e2). failed ev \<longrightarrow> status (run gw (c # cs) s) = Some (code ev)"
      proof
        fix ev assume "ev \<in> set (e1 @ e2)"
        then consider "ev \<in> set e1" | "ev \<in> set e2" by auto
        then show "failed ev \<longrightarrow> status (run gw (c # cs) s) = Some (code ev)"
        proof cases
          case 1
          with e1(4) ok show ?thesis by auto
        next
          case 2
          with e2(5) ok show ?thesis by (simp only: r) simp
        qed
      qed
      have g: "\<forall>ev \<in> set (e1 @ e2). code ev = 0 \<or> failed ev"
        using e1(5) e2(6) by auto
      from f have f': "status s = None \<longrightarrow>
          (\<forall>ev \<in> set (e1 @ e2). failed ev \<longrightarrow> status (run gw (c # cs) s) = Some (code ev))" ..
      from t p a b f' g show ?thesis
        by (intro exI [of _ "e1 @ e2"] conjI)
    next
      case stop: False
      then have r2: "run gw (c # cs) s = exec gw c s"
        using True by (simp add: run_stopped)
      have len: "length e1 \<le> 1"
      proof -
        have "length (map cmd_of e1) \<le> 1" unfolding e1(2) by (simp add: logged_def)
        then show ?thesis by simp
      qed
      have t: "trace (run gw (c # cs) s) = trace s @ e1"
        by (simp only: r2 e1(1))
      have p: "prefix (map cmd_of e1) (logged (c # cs))"
        by (simp add: lg e1(2))
      have a: "status (run gw (c # cs) s) = None \<longrightarrow>
          status s = None \<and> e1 = map (\<lambda>c. Ran c 0) (logged (c # cs))"
        using stop by (simp only: r2) simp
      have b: "\<forall>ev \<in> set (butlast e1). code ev = 0"
        using len by (cases e1) auto
      have f: "\<forall>ev \<in> set e1. failed ev \<longrightarrow> status (run gw (c # cs) s) = Some (code ev)"
        using e1(4) by (simp only: r2)
      from f have f': "status s = None \<longrightarrow>
          (\<forall>ev \<in> set e1. failed ev \<longrightarrow> status (run gw (c # cs) s) = Some (code ev))" ..
      from t p a b f' e1(5) show ?thesis
        by (intro exI [of _ e1] conjI)
    qed
  qed
qed

lemma run_delta:
  "trace (run gw cs s) = trace s @ delta s (run gw cs s)
   \<and> prefix (map cmd_of (delta s (run gw cs s))) (logged cs)
   \<and> (status (run gw cs s) = None \<longrightarrow>
        status s = None \<and> delta s (run gw cs s) = map (\<lambda>c. Ran c 0) (logged cs))
   \<and> (\<forall>ev \<in> set (butlast (delta s (run gw cs s))). code ev = 0)
   \<and> (status s = None \<longrightarrow>
        (\<forall>ev \<in> set (delta s (run gw cs s)). failed ev \<longrightarrow> status (run gw cs s) = Some (code ev)))
   \<and> (\<forall>ev \<in> set (delta s (run gw cs s)). code ev = 0 \<or> failed ev)"
proof -
  from run_events [of gw cs s] obtain evs where e:
    "trace (run gw cs s) = trace s @ evs
     \<and> prefix (map cmd_of evs) (logged cs)
     \<and> (status (run gw cs s) = None \<longrightarrow> status s = None \<and> evs = map (\<lambda>c. Ran c 0) (logged cs))
     \<and> (\<forall>ev \<in> set (butlast evs). code ev = 0)
     \<and> (status s = None \<longrightarrow> (\<forall>ev \<in> set evs. failed ev \<longrightarrow> status (run gw cs s) = Some (code ev)))
     \<and> (\<forall>ev \<in> set evs. code ev = 0 \<or> failed ev)" ..
  then have d: "delta s (run gw cs s) = evs" by (simp add: delta_def)
  show ?thesis unfolding d by (rule e)
qed

lemma trace_run: "trace (run gw cs s) = trace s @ delta s (run gw cs s)"
  using run_delta [of gw cs s] by (rule conjunct1)

lemma delta_prefix: "prefix (map cmd_of (delta s (run gw cs s))) (logged cs)"
  using run_delta [of gw cs s] by (elim conjE)

lemma delta_complete:
  "status (run gw cs s) = None \<Longrightarrow>
   status s = None \<and> delta s (run gw cs s) = map (\<lambda>c. Ran c 0) (logged cs)"
  using run_delta [of gw cs s] by (elim conjE) (erule (1) mp)













section \<open>Properties of the stage gates\<close>

lemma if_no_file_present:
  "status s = None \<Longrightarrow> resolve (cwd s) p \<in> files s \<Longrightarrow> if_no_file gw p thn els s = run gw els s"
  by (simp add: if_no_file_def)

lemma if_no_file_absent:
  "status s = None \<Longrightarrow> resolve (cwd s) p \<notin> files s \<Longrightarrow> if_no_file gw p thn els s = run gw thn s"
  by (simp add: if_no_file_def)

lemma is_absolute_append: "is_absolute d \<Longrightarrow> is_absolute (d @ x)"
  by (cases d) (auto simp: is_absolute_def)

lemma PTAU_FILE_absolute: "is_absolute d \<Longrightarrow> resolve c (PTAU_FILE d P) = PTAU_FILE d P"
  by (simp add: PTAU_FILE_def POWERS_DIR_def resolve_absolute is_absolute_append)

lemma VK_JSON_absolute: "is_absolute d \<Longrightarrow> resolve c (VK_JSON d n) = VK_JSON d n"
  by (simp add: VK_JSON_def KEYS_DIR_def BUILD_DIR_def resolve_absolute is_absolute_append)

lemma run_echo:
  "status s = None \<Longrightarrow> run gw [Echo c m] s = s\<lparr>trace := trace s @ [Ran (Echo c m) 0]\<rparr>"
  by simp

lemma tool_calls_echo: "tool_calls (Ran (Echo c m) st # evs) = tool_calls evs"
  by (simp add: tool_calls_def)

lemma tool_calls_tool: "tool_calls (Ran (Tool argv) st # evs) = argv # tool_calls evs"
  by (simp add: tool_calls_def)

text \<open>
  C6. The terminal artifact of phase 1 is \<^verbatim>\<open>powersOfTau/pot<N>_final.ptau\<close> under the
  invocation directory: its path is built from the exponent and not from the circuit. When
  the file exists, the phase-1 stage only prints its reuse notice: no tool is invoked and the
  store, the directory and the status stay as they were; this holds in the pipeline of every
  circuit, whose events up to the end of the stage are the banner, the \<^verbatim>\<open>mkdir\<close> and the
  notice.
\<close>

theorem phase1_reuses_final_ptau:
  assumes "is_absolute (pwd e)" and "status s = None" and "PTAU_FILE (pwd e) P \<in> files s"
  shows "PTAU_FILE (pwd e) P = pwd e @ ''/powersOfTau/pot'' @ P @ ''_final.ptau''
    \<and> phase1_stage e P s
        = s\<lparr>trace := trace s @ [Ran (Echo YELLOW (''Powers-of-tau for power '' @ P
              @ '' already exists. Reusing '' @ PTAU_FILE (pwd e) P @ ''.'')) 0]\<rparr>
    \<and> tool_calls (delta s (phase1_stage e P s)) = []
    \<and> delta s (phase1_stage e P
          (run (gateway e) (banner e f name @ [MkdirP (POWERS_DIR (pwd e))]) s))
        = map (\<lambda>c. Ran c 0) (banner e f name @ [MkdirP (POWERS_DIR (pwd e))] @ phase1_reuse e P)"
proof -
  have 1: "PTAU_FILE (pwd e) P = pwd e @ ''/powersOfTau/pot'' @ P @ ''_final.ptau''"
    by (simp add: PTAU_FILE_def POWERS_DIR_def)
  have g: "resolve (cwd s) (PTAU_FILE (pwd e) P) \<in> files s"
    using assms(1,3) by (simp add: PTAU_FILE_absolute)
  have 2: "phase1_stage e P s
        = s\<lparr>trace := trace s @ [Ran (Echo YELLOW (''Powers-of-tau for power '' @ P
              @ '' already exists. Reusing '' @ PTAU_FILE (pwd e) P @ ''.'')) 0]\<rparr>"
    unfolding phase1_stage_def if_no_file_present [OF assms(2) g] phase1_reuse_def
    using assms(2) by (rule run_echo)
  have 3: "tool_calls (delta s (phase1_stage e P s)) = []"
    unfolding 2 by (simp add: delta_def tool_calls_def)
  let ?s1 = "run (gateway e) (banner e f name @ [MkdirP (POWERS_DIR (pwd e))]) s"
  have s1: "?s1 = s\<lparr>trace := trace s
                @ map (\<lambda>c. Ran c 0) (banner e f name @ [MkdirP (POWERS_DIR (pwd e))])\<rparr>"
    using assms(2) by (simp add: banner_def)
  have st1: "status ?s1 = None" and g1: "resolve (cwd ?s1) (PTAU_FILE (pwd e) P) \<in> files ?s1"
    unfolding s1 using assms by (simp_all add: PTAU_FILE_absolute)
  have "phase1_stage e P ?s1 = run (gateway e) (phase1_reuse e P) ?s1"
    unfolding phase1_stage_def using st1 g1 by (rule if_no_file_present)
  also have "\<dots> = ?s1\<lparr>trace := trace ?s1 @ map (\<lambda>c. Ran c 0) (phase1_reuse e P)\<rparr>"
    using st1 by (simp add: phase1_reuse_def del: run.simps add: run_echo)
  finally have 4: "delta s (phase1_stage e P ?s1)
        = map (\<lambda>c. Ran c 0) (banner e f name @ [MkdirP (POWERS_DIR (pwd e))] @ phase1_reuse e P)"
    unfolding s1 by (simp add: delta_def)
  from 1 2 3 4 show ?thesis by (intro conjI)
qed


lemma demo_absolute: "is_absolute (pwd demo_env)"
  by code_simp

theorem phase1_reuses_final_ptau_witness:
  "PTAU_FILE (pwd demo_env) ''12'' = pwd demo_env @ ''/powersOfTau/pot'' @ ''12'' @ ''_final.ptau''
   \<and> phase1_stage demo_env ''12'' (init demo_env {''/work/powersOfTau/pot12_final.ptau''})
      = (init demo_env {''/work/powersOfTau/pot12_final.ptau''})
          \<lparr>trace := trace (init demo_env {''/work/powersOfTau/pot12_final.ptau''})
             @ [Ran (Echo YELLOW (''Powers-of-tau for power '' @ ''12''
                  @ '' already exists. Reusing '' @ PTAU_FILE (pwd demo_env) ''12'' @ ''.'')) 0]\<rparr>
   \<and> tool_calls (delta (init demo_env {''/work/powersOfTau/pot12_final.ptau''})
        (phase1_stage demo_env ''12'' (init demo_env {''/work/powersOfTau/pot12_final.ptau''})))
      = []
   \<and> delta (init demo_env {''/work/powersOfTau/pot12_final.ptau''})
        (phase1_stage demo_env ''12''
          (run (gateway demo_env)
             (banner demo_env ''circuits/Other.circom'' ''Other''
              @ [MkdirP (POWERS_DIR (pwd demo_env))])
             (init demo_env {''/work/powersOfTau/pot12_final.ptau''})))
      = map (\<lambda>c. Ran c 0)
          (banner demo_env ''circuits/Other.circom'' ''Other''
           @ [MkdirP (POWERS_DIR (pwd demo_env))] @ phase1_reuse demo_env ''12'')"
proof -
  have s: "status (init demo_env {''/work/powersOfTau/pot12_final.ptau''}) = None"
    by (simp add: init_def)
  have p: "PTAU_FILE (pwd demo_env) ''12''
           \<in> files (init demo_env {''/work/powersOfTau/pot12_final.ptau''})"
    by code_simp
  show ?thesis
    by (rule phase1_reuses_final_ptau [OF demo_absolute s p])
qed

lemma delta_compose:
  "trace s1 = trace s @ pre \<Longrightarrow> trace s2 = trace s1 @ d \<Longrightarrow> delta s s2 = pre @ d"
  by (simp add: delta_def)

lemma run_first_tool:
  assumes "status s = None"
  shows "\<exists>st evs. delta s (run gw (Echo c m # Pushd d # Tool argv # rest) s)
           = Ran (Echo c m) 0 # Ran (Tool argv) st # evs"
proof -
  let ?s2 = "exec gw (Pushd d) (exec gw (Echo c m) s)"
  let ?s3 = "exec gw (Tool argv) ?s2"
  obtain st fs' where g: "gw (cwd ?s2) argv (files ?s2) = (st, fs')"
    by (cases "gw (cwd ?s2) argv (files ?s2)")
  have t3: "trace ?s3 = trace s @ [Ran (Echo c m) 0, Ran (Tool argv) st]"
    using g by simp
  have r: "run gw (Echo c m # Pushd d # Tool argv # rest) s = run gw rest ?s3"
    using assms by simp
  have "delta s (run gw rest ?s3)
      = [Ran (Echo c m) 0, Ran (Tool argv) st] @ delta ?s3 (run gw rest ?s3)"
    using t3 trace_run by (rule delta_compose)
  then have "delta s (run gw (Echo c m # Pushd d # Tool argv # rest) s)
      = Ran (Echo c m) 0 # Ran (Tool argv) st # delta ?s3 (run gw rest ?s3)"
    by (simp only: r append_Cons append_Nil)
  then show ?thesis by blast
qed


text \<open>
  C2, as the script has it. The gate of the phase-2 setup and export stage tests
  \<^verbatim>\<open>keys/verification_key.json\<close>: when that file exists the stage invokes no tool and only
  prints its notice; when it is absent the whole procedure of the stage runs, whether or not
  \<^verbatim>\<open>_final.zkey\<close> exists. The stage invokes no tool exactly when the verification key exists.
\<close>

theorem phase2_skipped_iff_verification_key:
  assumes "is_absolute (pwd e)" and "status s = None"
  shows "(VK_JSON (pwd e) n \<in> files s \<longrightarrow>
            phase2_stage e P n s
            = s\<lparr>trace := trace s @ [Ran (Echo YELLOW (''Verification key already exists at ''
                  @ VK_JSON (pwd e) n @ ''. Skipping Groth16 setup.'')) 0]\<rparr>)
    \<and> (VK_JSON (pwd e) n \<notin> files s \<longrightarrow>
            phase2_stage e P n s = run (gateway e) (phase2_cmds e P n) s)
    \<and> ((tool_calls (delta s (phase2_stage e P n s)) = []) = (VK_JSON (pwd e) n \<in> files s))"
proof (cases "VK_JSON (pwd e) n \<in> files s")
  case True
  then have g: "resolve (cwd s) (VK_JSON (pwd e) n) \<in> files s"
    using assms(1) by (simp add: VK_JSON_absolute)
  have 1: "phase2_stage e P n s
            = s\<lparr>trace := trace s @ [Ran (Echo YELLOW (''Verification key already exists at ''
                  @ VK_JSON (pwd e) n @ ''. Skipping Groth16 setup.'')) 0]\<rparr>"
    unfolding phase2_stage_def if_no_file_present [OF assms(2) g] phase2_skip_def
    using assms(2) by (rule run_echo)
  have 2: "tool_calls (delta s (phase2_stage e P n s)) = []"
    unfolding 1 by (simp add: delta_def tool_calls_def)
  from True 1 2 show ?thesis by simp
next
  case False
  then have g: "resolve (cwd s) (VK_JSON (pwd e) n) \<notin> files s"
    using assms(1) by (simp add: VK_JSON_absolute)
  have 1: "phase2_stage e P n s = run (gateway e) (phase2_cmds e P n) s"
    unfolding phase2_stage_def using assms(2) g by (rule if_no_file_absent)
  obtain c m d argv rest where "phase2_cmds e P n = Echo c m # Pushd d # Tool argv # rest"
    by (simp add: phase2_cmds_def phase2_ceremony_def)
  then obtain st evs where "delta s (run (gateway e) (phase2_cmds e P n) s)
      = Ran (Echo c m) 0 # Ran (Tool argv) st # evs"
    using run_first_tool [OF assms(2)] by metis
  then have 2: "tool_calls (delta s (phase2_stage e P n s)) \<noteq> []"
    unfolding 1 by (simp add: tool_calls_echo tool_calls_tool)
  from False 1 2 show ?thesis by simp
qed

theorem phase2_skipped_iff_verification_key_witness:
  "phase2_stage demo_env ''12'' ''Demo''
      (init demo_env {''/work/circuits/build/Demo/keys/verification_key.json''})
     = (init demo_env {''/work/circuits/build/Demo/keys/verification_key.json''})
         \<lparr>trace := trace (init demo_env {''/work/circuits/build/Demo/keys/verification_key.json''})
            @ [Ran (Echo YELLOW (''Verification key already exists at ''
                 @ VK_JSON (pwd demo_env) ''Demo'' @ ''. Skipping Groth16 setup.'')) 0]\<rparr>
   \<and> tool_calls (delta (init demo_env {''/work/circuits/build/Demo/keys/verification_key.json''})
        (phase2_stage demo_env ''12'' ''Demo''
           (init demo_env {''/work/circuits/build/Demo/keys/verification_key.json''}))) = []"
proof -
  have s: "status (init demo_env {''/work/circuits/build/Demo/keys/verification_key.json''}) = None"
    by (simp add: init_def)
  have v: "VK_JSON (pwd demo_env) ''Demo''
           \<in> files (init demo_env {''/work/circuits/build/Demo/keys/verification_key.json''})"
    by code_simp
  from phase2_skipped_iff_verification_key [OF demo_absolute s, of "''Demo''" "''12''"] v
  show ?thesis by blast
qed

text \<open>
  The claim as written fails in both directions. With \<^verbatim>\<open>Demo_final.zkey\<close> in the store and
  no verification key the stage runs its ten tool invocations; with the verification key
  in the store and no \<^verbatim>\<open>Demo_final.zkey\<close> the stage is skipped.
\<close>

theorem final_zkey_gate_counterexample:
  "FINAL_ZKEY (pwd demo_env) ''Demo''
     \<in> files (init demo_env {''/work/circuits/build/Demo/keys/Demo_final.zkey''})
   \<and> length (tool_calls (delta (init demo_env {''/work/circuits/build/Demo/keys/Demo_final.zkey''})
        (phase2_stage demo_env ''12'' ''Demo''
           (init demo_env {''/work/circuits/build/Demo/keys/Demo_final.zkey''})))) = 10
   \<and> FINAL_ZKEY (pwd demo_env) ''Demo''
     \<notin> files (init demo_env {''/work/circuits/build/Demo/keys/verification_key.json''})
   \<and> tool_calls (delta (init demo_env {''/work/circuits/build/Demo/keys/verification_key.json''})
        (phase2_stage demo_env ''12'' ''Demo''
           (init demo_env {''/work/circuits/build/Demo/keys/verification_key.json''}))) = []"
  by code_simp

section \<open>Properties of the contribution chains\<close>

lemma tool_calls_cmds: "tool_calls evs = tool_cmds (map cmd_of evs)"
proof (induction evs)
  case Nil
  show ?case by (simp add: tool_calls_def tool_cmds_def)
next
  case (Cons ev evs)
  obtain c st where ev: "ev = Ran c st" by (cases ev)
  from Cons show ?case
    unfolding ev by (cases c) (simp_all add: tool_calls_def tool_cmds_def)
qed

lemma tool_cmds_append: "tool_cmds (xs @ ys) = tool_cmds xs @ tool_cmds ys"
  by (simp add: tool_cmds_def)

lemma tool_cmds_logged: "tool_cmds (logged cs) = tool_cmds cs"
proof (induction cs)
  case Nil
  show ?case by (simp add: logged_def)
next
  case (Cons c cs)
  then show ?case by (cases c) (simp_all add: tool_cmds_def logged_def)
qed

lemma prefix_tool_cmds: "prefix xs ys \<Longrightarrow> prefix (tool_cmds xs) (tool_cmds ys)"
  by (auto simp: prefix_def tool_cmds_append)

lemma steps_run_prefix: "prefix (steps (delta s (run gw cs s))) (map step_of (tool_cmds cs))"
proof -
  have "prefix (tool_cmds (map cmd_of (delta s (run gw cs s)))) (tool_cmds (logged cs))"
    using delta_prefix by (rule prefix_tool_cmds)
  then have "prefix (tool_calls (delta s (run gw cs s))) (tool_cmds cs)"
    by (simp only: tool_calls_cmds tool_cmds_logged)
  then show ?thesis
    unfolding steps_def by (rule map_mono_prefix)
qed

lemma steps_run_complete:
  assumes "status (run gw cs s) = None"
  shows "steps (delta s (run gw cs s)) = map step_of (tool_cmds cs)"
proof -
  from assms have "delta s (run gw cs s) = map (\<lambda>c. Ran c 0) (logged cs)"
    by (simp add: delta_complete)
  then have "map cmd_of (delta s (run gw cs s)) = logged cs"
    by (simp add: comp_def)
  then show ?thesis
    by (simp only: steps_def tool_calls_cmds tool_cmds_logged)
qed

lemma chained_prefix: "chained st ys \<Longrightarrow> prefix xs ys \<Longrightarrow> chained st xs"
proof (induction st ys arbitrary: xs rule: chained.induct)
  case (1 st)
  then show ?case by simp
qed (auto simp: prefix_Cons)

lemma step_simps:
  "step_of (''snarkjs'' # ''powersoftau'' # ''new'' # a # b # c # r) = Init c"
  "step_of (''snarkjs'' # ''powersoftau'' # ''contribute'' # a # b # r) = Contribute a b"
  "step_of (''snarkjs'' # ''powersoftau'' # ''export'' # ''challenge'' # a # b # r)
     = ExportChallenge a b"
  "step_of (''snarkjs'' # ''powersoftau'' # ''challenge'' # ''contribute'' # a # b # c # r)
     = Respond b c"
  "step_of (''snarkjs'' # ''powersoftau'' # ''import'' # ''response'' # a # b # c # r)
     = ImportResponse a b c"
  "step_of (''snarkjs'' # ''powersoftau'' # ''verify'' # a # r) = Verify a"
  "step_of (''snarkjs'' # ''powersoftau'' # ''beacon'' # a # b # r) = Beacon a b"
  "step_of (''snarkjs'' # ''powersoftau'' # ''prepare'' # ''phase2'' # a # b # r)
     = PreparePhase2 a b"
  "step_of (''snarkjs'' # ''groth16'' # ''setup'' # a # b # c # r) = Init c"
  "step_of (''snarkjs'' # ''zkey'' # ''contribute'' # a # b # r) = Contribute a b"
  "step_of (''snarkjs'' # ''zkey'' # ''export'' # ''bellman'' # a # b # r) = ExportChallenge a b"
  "step_of (''snarkjs'' # ''zkey'' # ''bellman'' # ''contribute'' # a # b # c # r) = Respond b c"
  "step_of (''snarkjs'' # ''zkey'' # ''import'' # ''bellman'' # a # b # c # r)
     = ImportResponse a b c"
  "step_of (''snarkjs'' # ''zkey'' # ''verify'' # a # b # c # r) = Verify c"
  "step_of (''snarkjs'' # ''zkey'' # ''beacon'' # a # b # r) = Beacon a b"
  "step_of (''snarkjs'' # ''zkey'' # ''export'' # ''verificationkey'' # a # b # r) = ExportKey a b"
  by (simp_all add: step_of_def grammar_def rule_def List.map_filter_simps)

lemma phase1_steps: "map step_of (tool_cmds (phase1_cmds e P)) = phase1_chain P"
  by (simp add: phase1_cmds_def phase1_ceremony_def phase1_cleanup_def phase1_verify_final_def
      tool_cmds_def step_simps phase1_chain_def chain_order_def)

lemma phase2_steps: "map step_of (tool_cmds (phase2_cmds e P n)) = phase2_chain n"
  by (simp add: phase2_cmds_def phase2_ceremony_def phase2_export_def phase2_cleanup_def
      phase2_verify_final_def phase2_export_vk_def
      tool_cmds_def step_simps phase2_chain_def chain_order_def)

lemma chained_phase1: "chained (None, None, None) (phase1_chain P)"
  by (simp add: phase1_chain_def chain_order_def)

lemma chained_phase2: "chained (None, None, None) (phase2_chain n)"
  by (simp add: phase2_chain_def chain_order_def)

lemma steps_Nil: "steps [] = []"
  by (simp add: steps_def tool_calls_def)

lemma delta_same: "delta s s = []"
  by (simp add: delta_def)

lemma steps_stage_prefix:
  assumes "tool_cmds els = []"
  shows "prefix (steps (delta s (if_no_file gw p thn els s))) (map step_of (tool_cmds thn))"
proof -
  have "prefix (steps (delta s (run gw els s))) (map step_of (tool_cmds els))"
    by (rule steps_run_prefix)
  then have 1: "steps (delta s (run gw els s)) = []"
    by (simp add: assms)
  have 2: "prefix (steps (delta s (run gw thn s))) (map step_of (tool_cmds thn))"
    by (rule steps_run_prefix)
  from 1 2 show ?thesis
    by (simp add: if_no_file_def delta_same steps_Nil)
qed

lemma steps_stage_complete:
  assumes "status s = None" and "resolve (cwd s) p \<notin> files s"
    and "status (if_no_file gw p thn els s) = None"
  shows "steps (delta s (if_no_file gw p thn els s)) = map step_of (tool_cmds thn)"
proof -
  have r: "if_no_file gw p thn els s = run gw thn s"
    using assms(1,2) by (rule if_no_file_absent)
  from assms(3) show ?thesis
    unfolding r by (rule steps_run_complete)
qed

text \<open>
  C5. In every run of either ceremony stage, whatever the tools return, the steps invoked
  are an initial part of the fixed order: the first file feeds contribution A, whose output
  feeds contribution B, the challenge is exported from B's output, the response to it is
  imported onto B's output, the result is verified and then consumed by the beacon. Each
  step reads the file the step before it in the chain wrote. A stage that runs to its end
  invokes exactly the steps of the order.
\<close>

theorem contribution_chains_linked:
  "prefix (steps (delta s (phase1_stage e P s))) (phase1_chain P)
   \<and> prefix (steps (delta s (phase2_stage e P n s))) (phase2_chain n)
   \<and> chained (None, None, None) (steps (delta s (phase1_stage e P s)))
   \<and> chained (None, None, None) (steps (delta s (phase2_stage e P n s)))
   \<and> chained (None, None, None) (phase1_chain P)
   \<and> chained (None, None, None) (phase2_chain n)
   \<and> (status s = None \<and> resolve (cwd s) (PTAU_FILE (pwd e) P) \<notin> files s
        \<and> status (phase1_stage e P s) = None
       \<longrightarrow> steps (delta s (phase1_stage e P s)) = phase1_chain P)
   \<and> (status s = None \<and> resolve (cwd s) (VK_JSON (pwd e) n) \<notin> files s
        \<and> status (phase2_stage e P n s) = None
       \<longrightarrow> steps (delta s (phase2_stage e P n s)) = phase2_chain n)"
proof -
  have r1: "tool_cmds (phase1_reuse e P) = []"
    by (simp add: phase1_reuse_def tool_cmds_def)
  have r2: "tool_cmds (phase2_skip e n) = []"
    by (simp add: phase2_skip_def tool_cmds_def)
  have 1: "prefix (steps (delta s (phase1_stage e P s))) (phase1_chain P)"
    unfolding phase1_stage_def phase1_steps [of e P, symmetric]
    using r1 by (rule steps_stage_prefix)
  have 2: "prefix (steps (delta s (phase2_stage e P n s))) (phase2_chain n)"
    unfolding phase2_stage_def phase2_steps [of e P n, symmetric]
    using r2 by (rule steps_stage_prefix)
  have 3: "chained (None, None, None) (steps (delta s (phase1_stage e P s)))"
    using chained_phase1 1 by (rule chained_prefix)
  have 4: "chained (None, None, None) (steps (delta s (phase2_stage e P n s)))"
    using chained_phase2 2 by (rule chained_prefix)
  have 5: "status s = None \<and> resolve (cwd s) (PTAU_FILE (pwd e) P) \<notin> files s
        \<and> status (phase1_stage e P s) = None
       \<longrightarrow> steps (delta s (phase1_stage e P s)) = phase1_chain P"
    unfolding phase1_stage_def phase1_steps [of e P, symmetric]
    by (intro impI, elim conjE) (rule steps_stage_complete)
  have 6: "status s = None \<and> resolve (cwd s) (VK_JSON (pwd e) n) \<notin> files s
        \<and> status (phase2_stage e P n s) = None
       \<longrightarrow> steps (delta s (phase2_stage e P n s)) = phase2_chain n"
    unfolding phase2_stage_def phase2_steps [of e P n, symmetric]
    by (intro impI, elim conjE) (rule steps_stage_complete)
  from 1 2 3 4 chained_phase1 chained_phase2 5 6 show ?thesis by (intro conjI)
qed


theorem contribution_chains_linked_witness:
  "steps (delta (init demo_env {}) (phase1_stage demo_env ''12'' (init demo_env {})))
     = phase1_chain ''12''
   \<and> steps (delta (init demo_env {}) (phase2_stage demo_env ''12'' ''Demo'' (init demo_env {})))
     = phase2_chain ''Demo''
   \<and> chained (None, None, None)
        (steps (delta (init demo_env {}) (phase1_stage demo_env ''12'' (init demo_env {}))))
   \<and> chained (None, None, None)
        (steps (delta (init demo_env {})
           (phase2_stage demo_env ''12'' ''Demo'' (init demo_env {}))))"
proof -
  have s: "status (init demo_env {}) = None"
    by (simp add: init_def)
  have a1: "resolve (cwd (init demo_env {})) (PTAU_FILE (pwd demo_env) ''12'')
            \<notin> files (init demo_env {})"
    by (simp add: init_def)
  have a2: "resolve (cwd (init demo_env {})) (VK_JSON (pwd demo_env) ''Demo'')
            \<notin> files (init demo_env {})"
    by (simp add: init_def)
  have e1: "status (phase1_stage demo_env ''12'' (init demo_env {})) = None"
    by code_simp
  have e2: "status (phase2_stage demo_env ''12'' ''Demo'' (init demo_env {})) = None"
    by code_simp
  from contribution_chains_linked [of "init demo_env {}" demo_env "''12''" "''Demo''"]
    s a1 a2 e1 e2
  show ?thesis by blast
qed

section \<open>Properties of the cleanup\<close>












































end
